theory Spec2Isabelle
  imports Main "HOL-Library.Product_Lexorder"
begin

section \<open>Divvy trip-data downloader: data model\<close>

text \<open>
  The script \<^verbatim>\<open>data-downloader/divvy-data-downloader.py\<close> keeps every discovered
  remote file as a dictionary with the six keys \<^verbatim>\<open>filename\<close>, \<^verbatim>\<open>url\<close>, \<^verbatim>\<open>size\<close>,
  \<^verbatim>\<open>size_mb\<close>, \<^verbatim>\<open>year\<close> and \<^verbatim>\<open>month\<close>.  The dictionary always has exactly these
  keys, so it is a record here.  Python integers are unbounded: \<open>year\<close> and \<open>month\<close>
  are \<open>int\<close>; \<open>size\<close> is the value of a string of decimal digits (or 0) and is a \<open>nat\<close>.
  \<open>size_mb\<close> is the float \<^verbatim>\<open>round(size / (1024 * 1024), 2)\<close>; it is kept as the number
  of hundredths of a megabyte (see \<open>size_mb_of\<close> below).
\<close>

record file_record =
  filename :: string
  url :: string
  size :: nat
  size_mb :: nat
  year :: int
  month :: int

text \<open>Exceptions that the modelled functions let escape to their caller.\<close>

datatype error =
    ValueError string
  | KeyError
  | OSError

text \<open>
  The optional command-line arguments \<^verbatim>\<open>--year\<close> and \<^verbatim>\<open>--quarter\<close> are \<^verbatim>\<open>None\<close> or an
  integer.  The script tests them with \<^verbatim>\<open>if not year\<close>, that is, for truthiness:
  \<^verbatim>\<open>None\<close> and \<^verbatim>\<open>0\<close> are both false.
\<close>

fun truthy :: "int option \<Rightarrow> bool" where
  "truthy None = False"
| "truthy (Some n) = (n \<noteq> 0)"

section \<open>Filter stage\<close>

text \<open>
  \<^verbatim>\<open>
  def filter_files_by_year(files, year):
      if not year:
          return files
      return [file for file in files if file["year"] == year]
  \<close>
\<close>

definition filter_files_by_year :: "file_record list \<Rightarrow> int option \<Rightarrow> file_record list" where
  "filter_files_by_year files yr =
     (if \<not> truthy yr then files
      else [file \<leftarrow> files. Some (year file) = yr])"

text \<open>
  \<^verbatim>\<open>
  def filter_files_by_quarter(files, year, quarter):
      if not year or not quarter:
          return files
      if quarter not in [1, 2, 3, 4]:
          raise ValueError("Quarter must be 1, 2, 3, or 4")
      quarter_months = {1: [1, 2, 3], 2: [4, 5, 6], 3: [7, 8, 9], 4: [10, 11, 12]}
      return [file for file in files
              if file["year"] == year and file["month"] in quarter_months[quarter]]
  \<close>
  The dictionary lookup \<^verbatim>\<open>quarter_months[quarter]\<close> raises \<^verbatim>\<open>KeyError\<close> on a missing key;
  the branch is kept although the membership test before it makes it unreachable.
\<close>

definition quarter_months :: "int \<rightharpoonup> int list" where
  "quarter_months = map_of [(1, [1, 2, 3]), (2, [4, 5, 6]), (3, [7, 8, 9]), (4, [10, 11, 12])]"

definition filter_files_by_quarter ::
  "file_record list \<Rightarrow> int option \<Rightarrow> int option \<Rightarrow> error + file_record list" where
  "filter_files_by_quarter files yr quarter =
     (if \<not> truthy yr \<or> \<not> truthy quarter then Inr files
      else if the quarter \<notin> set [1, 2, 3, 4]
        then Inl (ValueError ''Quarter must be 1, 2, 3, or 4'')
      else (case quarter_months (the quarter) of
              None \<Rightarrow> Inl KeyError
            | Some months \<Rightarrow>
                Inr [file \<leftarrow> files. Some (year file) = yr \<and> month file \<in> set months]))"

text \<open>
  The filter section of \<^verbatim>\<open>main\<close>:
  \<^verbatim>\<open>
  filtered_files = all_files
  if args.year:
      filtered_files = filter_files_by_year(filtered_files, args.year)
  if args.year and args.quarter:
      filtered_files = filter_files_by_quarter(filtered_files, args.year, args.quarter)
  \<close>
\<close>

definition main_apply_filters ::
  "file_record list \<Rightarrow> int option \<Rightarrow> int option \<Rightarrow> error + file_record list" where
  "main_apply_filters all_files yr quarter =
     (let filtered_files = all_files;
          filtered_files = (if truthy yr then filter_files_by_year filtered_files yr
                            else filtered_files)
      in if truthy yr \<and> truthy quarter
         then filter_files_by_quarter filtered_files yr quarter
         else Inr filtered_files)"

text \<open>
  The filters as the specification words them: the month group of a quarter, the
  records of a year, and the records of a year whose month lies in the group.
\<close>

definition quarter_group :: "int \<Rightarrow> int set" where
  "quarter_group q =
     (if q = 1 then {1, 2, 3} else if q = 2 then {4, 5, 6}
      else if q = 3 then {7, 8, 9} else if q = 4 then {10, 11, 12} else {})"

definition spec_filter_by_year :: "file_record list \<Rightarrow> int \<Rightarrow> file_record list" where
  "spec_filter_by_year catalog y = [r \<leftarrow> catalog. year r = y]"

definition spec_filter_by_quarter :: "file_record list \<Rightarrow> int \<Rightarrow> int \<Rightarrow> file_record list" where
  "spec_filter_by_quarter catalog y q = [r \<leftarrow> catalog. year r = y \<and> month r \<in> quarter_group q]"

section \<open>Catalog builder\<close>

subsection \<open>String formatting\<close>

text \<open>
  The candidate file name is the f-string \<^verbatim>\<open>f"{year}{month:02d}-divvy-tripdata.zip"\<close>.
  \<open>str_int\<close> is Python's decimal \<^verbatim>\<open>str\<close> of an integer, \<open>format_02d\<close> the format
  specification \<^verbatim>\<open>02d\<close>: zero padding to width 2, the sign counting towards the width.
\<close>

definition digit_char :: "nat \<Rightarrow> char" where
  "digit_char d = ''0123456789'' ! d"

fun nat_digits :: "nat \<Rightarrow> string" where
  "nat_digits n =
     (if n < 10 then [digit_char n] else nat_digits (n div 10) @ [digit_char (n mod 10)])"

declare nat_digits.simps [simp del]

definition str_int :: "int \<Rightarrow> string" where
  "str_int i = (if i < 0 then CHR ''-'' # nat_digits (nat (- i)) else nat_digits (nat i))"

definition zero_pad :: "nat \<Rightarrow> string \<Rightarrow> string" where
  "zero_pad w s = replicate (w - length s) CHR ''0'' @ s"

definition format_02d :: "int \<Rightarrow> string" where
  "format_02d i =
     (if i < 0 then CHR ''-'' # zero_pad 1 (nat_digits (nat (- i)))
      else zero_pad 2 (nat_digits (nat i)))"

definition candidate_filename :: "int \<Rightarrow> int \<Rightarrow> string" where
  "candidate_filename y m = str_int y @ format_02d m @ ''-divvy-tripdata.zip''"

text \<open>
  \<^verbatim>\<open>content_length.isdigit()\<close> and \<^verbatim>\<open>int(content_length)\<close>.  The value of an HTTP
  header reaches the script decoded as Latin-1, one character for each byte, so a
  header value is a \<open>string\<close> here.  Among these 256 characters \<^verbatim>\<open>str.isdigit\<close> holds
  for the ten ASCII digits and for the superscripts 0xB2, 0xB3 and 0xB9, which
  \<^verbatim>\<open>int\<close> does not accept.  \<^verbatim>\<open>int\<close> (Python 3.9) strips white space, reads one optional
  sign and then ASCII digits, with single underscores allowed between digits.
\<close>

definition is_ascii_digit :: "char \<Rightarrow> bool" where
  "is_ascii_digit c = (c \<in> set ''0123456789'')"

definition is_digit_char :: "char \<Rightarrow> bool" where
  "is_digit_char c = (is_ascii_digit c \<or> c \<in> set [CHR 0xB2, CHR 0xB3, CHR 0xB9])"

definition str_isdigit :: "string \<Rightarrow> bool" where
  "str_isdigit s = (s \<noteq> [] \<and> list_all is_digit_char s)"

definition digit_value :: "char \<Rightarrow> nat" where
  "digit_value c = of_char c - 48"

definition int_of_digits :: "string \<Rightarrow> nat" where
  "int_of_digits s = foldl (\<lambda>acc c. 10 * acc + digit_value c) 0 s"

definition is_space_char :: "char \<Rightarrow> bool" where
  "is_space_char c =
     (c \<in> set [CHR 0x09, CHR 0x0A, CHR 0x0B, CHR 0x0C, CHR 0x0D, CHR 0x1C, CHR 0x1D,
               CHR 0x1E, CHR 0x1F, CHR 0x20, CHR 0x85, CHR 0xA0])"

definition str_strip :: "string \<Rightarrow> string" where
  "str_strip s = rev (dropWhile is_space_char (rev (dropWhile is_space_char s)))"

fun digits_ok :: "string \<Rightarrow> bool" where
  "digits_ok [] = False"
| "digits_ok [c] = is_ascii_digit c"
| "digits_ok (c # d # r) =
     (is_ascii_digit c \<and> (if d = CHR ''_'' then digits_ok r else digits_ok (d # r)))"

definition py_int :: "string \<Rightarrow> int option" where
  "py_int s =
     (let t = str_strip s;
          negative = (case t of [] \<Rightarrow> False | c # r \<Rightarrow> c = CHR ''-'');
          body = (case t of [] \<Rightarrow> []
                  | c # r \<Rightarrow> if c = CHR ''-'' \<or> c = CHR ''+'' then r else t)
      in if digits_ok body
         then (let v = int (int_of_digits (filter (\<lambda>c. c \<noteq> CHR ''_'') body))
               in Some (if negative then - v else v))
         else None)"

text \<open>
  \<^verbatim>\<open>round(size / (1024 * 1024), 2)\<close>: the quotient by \<open>2\<^sup>2\<^sup>0\<close> is exact in binary
  floating point for every size below \<open>2\<^sup>5\<^sup>3\<close>, and \<^verbatim>\<open>round\<close> takes the exact value to
  the nearest multiple of 0.01, a tie going to the even one.  The result is kept as
  the number of hundredths.
\<close>

definition round_half_even :: "nat \<Rightarrow> nat \<Rightarrow> nat" where
  "round_half_even a b =
     (let q = a div b; r = a mod b
      in if 2 * r < b then q else if b < 2 * r then q + 1
         else if even q then q else q + 1)"

definition size_mb_of :: "nat \<Rightarrow> nat" where
  "size_mb_of sz = round_half_even (sz * 100) (1024 * 1024)"

subsection \<open>The outside world\<close>

text \<open>
  What the script cannot decide itself is a parameter: the library function
  \<^verbatim>\<open>urllib.parse.urljoin\<close>, the answer of the remote host to a \<^verbatim>\<open>HEAD\<close> and to a
  streamed \<^verbatim>\<open>GET\<close> request, and whether a file-system call raises.

  A \<^verbatim>\<open>HEAD\<close> request either returns a response, of which the script reads the status
  code and the \<^verbatim>\<open>Content-Length\<close> header, or raises a
  \<^verbatim>\<open>requests.exceptions.RequestException\<close> (time-out, connection or DNS failure).

  A \<^verbatim>\<open>GET\<close> request either raises, or returns a response with a status code, the
  \<^verbatim>\<open>Content-Length\<close> header and a body that arrives in chunks; the stream delivers all
  its chunks and then either ends or raises.
\<close>

datatype head_outcome =
    HeadResponse int "string option"
  | HeadRequestException

datatype stream_end = EndOfBody | StreamRaises

datatype get_outcome =
    GetResponse int "string option" "string list" stream_end
  | GetRaises

type_synonym path = string

record environment =
  urljoin :: "string \<Rightarrow> string \<Rightarrow> string"
  session_head :: "string \<Rightarrow> head_outcome"
  session_get :: "string \<Rightarrow> get_outcome"
  makedirs_raises :: "path \<Rightarrow> bool"
  open_raises :: "path \<Rightarrow> bool"
  write_raises :: "path \<Rightarrow> nat \<Rightarrow> bool"
  remove_raises :: "path \<Rightarrow> bool"

subsection \<open>Discovery\<close>

text \<open>
  The body of the inner loop of \<^verbatim>\<open>get_available_files\<close>, for one year and month; it
  returns the entries appended to \<^verbatim>\<open>discovered_files\<close> (none or one).
  \<^verbatim>\<open>
  filename = f"{year}{month:02d}-divvy-tripdata.zip"
  url = urljoin(base_url, filename)
  try:
      head_response = session.head(url, timeout=5)
      if head_response.status_code == 200:
          content_length = head_response.headers.get('Content-Length', '0')
          size = int(content_length) if content_length.isdigit() else 0
          size_mb = round(size / (1024 * 1024), 2)
          discovered_files.append({"filename": filename, "url": url, "size": size,
                                   "size_mb": size_mb, "year": year, "month": month})
  except requests.exceptions.RequestException:
      pass
  \<close>
\<close>

definition probe_candidate ::
  "environment \<Rightarrow> string \<Rightarrow> int \<Rightarrow> int \<Rightarrow> error + file_record list" where
  "probe_candidate env base_url y m =
     (let fname = candidate_filename y m;
          u = urljoin env base_url fname
      in case session_head env u of
           HeadRequestException \<Rightarrow> Inr []
         | HeadResponse status_code header \<Rightarrow>
             if status_code = 200 then
               (let content_length = (case header of None \<Rightarrow> ''0'' | Some v \<Rightarrow> v)
                in if str_isdigit content_length then
                     (case py_int content_length of
                        None \<Rightarrow> Inl (ValueError ''invalid literal for int() with base 10'')
                      | Some v \<Rightarrow>
                          Inr [\<lparr>filename = fname, url = u, size = nat v,
                                size_mb = size_mb_of (nat v), year = y, month = m\<rparr>])
                   else
                     Inr [\<lparr>filename = fname, url = u, size = 0,
                           size_mb = size_mb_of 0, year = y, month = m\<rparr>])
             else Inr [])"

text \<open>
  The two nested \<^verbatim>\<open>for\<close> loops, with \<^verbatim>\<open>discovered_files\<close> as the accumulator.  The
  ranges are arguments, so that the loops can be run in any order.  The only
  exception that leaves the loops is the \<^verbatim>\<open>ValueError\<close> of \<^verbatim>\<open>int\<close>, which the
  \<^verbatim>\<open>except\<close> clause does not catch.
\<close>

fun probe_months ::
  "environment \<Rightarrow> string \<Rightarrow> int \<Rightarrow> int list \<Rightarrow> file_record list \<Rightarrow> error + file_record list" where
  "probe_months env base_url y [] discovered_files = Inr discovered_files"
| "probe_months env base_url y (m # ms) discovered_files =
     (case probe_candidate env base_url y m of
        Inl e \<Rightarrow> Inl e
      | Inr found \<Rightarrow> probe_months env base_url y ms (discovered_files @ found))"

fun probe_years ::
  "environment \<Rightarrow> string \<Rightarrow> int list \<Rightarrow> int list \<Rightarrow> file_record list \<Rightarrow> error + file_record list" where
  "probe_years env base_url [] months discovered_files = Inr discovered_files"
| "probe_years env base_url (y # ys) months discovered_files =
     (case probe_months env base_url y months discovered_files of
        Inl e \<Rightarrow> Inl e
      | Inr discovered_files' \<Rightarrow> probe_years env base_url ys months discovered_files')"

definition sort_key_of :: "file_record \<Rightarrow> int \<times> int" where
  "sort_key_of x = (year x, month x)"

text \<open>
  \<^verbatim>\<open>discovered_files.sort(key=lambda x: (x["year"], x["month"]))\<close> is a stable sort on
  the pair, compared lexicographically; so is \<open>sort_key\<close>.
\<close>

definition discover ::
  "environment \<Rightarrow> string \<Rightarrow> int list \<Rightarrow> int list \<Rightarrow> error + file_record list" where
  "discover env base_url years months =
     (case probe_years env base_url years months [] of
        Inl e \<Rightarrow> Inl e
      | Inr discovered_files \<Rightarrow> Inr (sort_key sort_key_of discovered_files))"

text \<open>\<^verbatim>\<open>range(2013, 2025)\<close> and \<^verbatim>\<open>range(1, 13)\<close>.\<close>

definition year_range :: "int list" where
  "year_range = [2013..2024]"

definition month_range :: "int list" where
  "month_range = [1..12]"

definition get_available_files :: "environment \<Rightarrow> string \<Rightarrow> error + file_record list" where
  "get_available_files env base_url = discover env base_url year_range month_range"

text \<open>The file name pattern as the specification words it, digit by digit.\<close>

definition spec_filename :: "int \<Rightarrow> int \<Rightarrow> string" where
  "spec_filename y m =
     [digit_char (nat y div 1000), digit_char (nat y div 100 mod 10),
      digit_char (nat y div 10 mod 10), digit_char (nat y mod 10),
      digit_char (nat m div 10), digit_char (nat m mod 10)] @ ''-divvy-tripdata.zip''"

text \<open>A probe is positive when the \<^verbatim>\<open>HEAD\<close> request is answered with status 200.\<close>

definition probe_found :: "environment \<Rightarrow> string \<Rightarrow> bool" where
  "probe_found env u =
     (case session_head env u of
        HeadResponse status_code header \<Rightarrow> status_code = 200
      | HeadRequestException \<Rightarrow> False)"

definition candidate_url :: "environment \<Rightarrow> string \<Rightarrow> int \<Rightarrow> int \<Rightarrow> string" where
  "candidate_url env base_url y m = urljoin env base_url (candidate_filename y m)"

section \<open>Download executor\<close>

subsection \<open>Paths\<close>

text \<open>\<^verbatim>\<open>os.path.join\<close> with two arguments and \<^verbatim>\<open>os.path.dirname\<close>, as in \<^verbatim>\<open>posixpath\<close>.\<close>

definition os_path_join :: "path \<Rightarrow> string \<Rightarrow> path" where
  "os_path_join a b =
     (if (case b of [] \<Rightarrow> False | c # r \<Rightarrow> c = CHR ''/'') then b
      else if a = [] \<or> last a = CHR ''/'' then a @ b
      else a @ ''/'' @ b)"

definition os_path_dirname :: "path \<Rightarrow> path" where
  "os_path_dirname p =
     (let head = rev (dropWhile (\<lambda>c. c \<noteq> CHR ''/'') (rev p))
      in if head \<noteq> [] \<and> \<not> list_all (\<lambda>c. c = CHR ''/'') head
         then rev (dropWhile (\<lambda>c. c = CHR ''/'') (rev head))
         else head)"

subsection \<open>State\<close>

text \<open>
  The state that the download loop changes: the entries of the local file system
  with their contents (\<^verbatim>\<open>os.path.exists\<close> is \<open>files w p \<noteq> None\<close>, \<^verbatim>\<open>os.path.getsize\<close> the
  length of the content), and the log of the \<^verbatim>\<open>GET\<close> requests sent so far.
  Directories made by \<^verbatim>\<open>os.makedirs\<close> and the progress bar are not part of it.
\<close>

record world =
  files :: "path \<rightharpoonup> string"
  requests_log :: "string list"

subsection \<open>One download\<close>

text \<open>\<^verbatim>\<open>response.raise_for_status()\<close> raises for the status codes 400 to 599.\<close>

definition raise_for_status :: "int \<Rightarrow> bool" where
  "raise_for_status status_code = (400 \<le> status_code \<and> status_code < 600)"

text \<open>
  \<^verbatim>\<open>total_size = int(response.headers.get('Content-Length', 0))\<close>; \<open>None\<close> is the
  \<^verbatim>\<open>ValueError\<close>.
\<close>

definition total_size_of :: "string option \<Rightarrow> int option" where
  "total_size_of header = (case header of None \<Rightarrow> Some 0 | Some v \<Rightarrow> py_int v)"

text \<open>
  The loop over \<^verbatim>\<open>response.iter_content(chunk_size=8192)\<close> inside the \<^verbatim>\<open>with\<close> block:
  \<^verbatim>\<open>
  for chunk in response.iter_content(chunk_size=8192):
      if chunk:
          f.write(chunk)
          pbar.update(len(chunk))
  \<close>
  \<open>written\<close> is what the open file holds so far.  The result is \<open>True\<close> when the loop
  ends and \<open>False\<close> when an exception leaves it.
\<close>

fun write_chunks ::
  "environment \<Rightarrow> path \<Rightarrow> string list \<Rightarrow> stream_end \<Rightarrow> string \<Rightarrow> world \<Rightarrow> bool \<times> world" where
  "write_chunks env output_path [] fin written w = (fin = EndOfBody, w)"
| "write_chunks env output_path (chunk # rest) fin written w =
     (if chunk = [] then write_chunks env output_path rest fin written w
      else if write_raises env output_path (length written) then (False, w)
      else write_chunks env output_path rest fin (written @ chunk)
             (w\<lparr>files := (files w)(output_path \<mapsto> written @ chunk)\<rparr>))"

text \<open>
  The \<^verbatim>\<open>try\<close> block of \<^verbatim>\<open>download_file\<close>; \<open>False\<close> when an exception leaves it.
  \<^verbatim>\<open>
  os.makedirs(os.path.dirname(output_path), exist_ok=True)
  response = session.get(url, stream=True)
  response.raise_for_status()
  total_size = int(response.headers.get('Content-Length', 0))
  with open(output_path, 'wb') as f, tqdm(...) as pbar:
      for chunk in response.iter_content(chunk_size=8192): ...
  return True
  \<close>
\<close>

definition try_download :: "environment \<Rightarrow> string \<Rightarrow> path \<Rightarrow> world \<Rightarrow> bool \<times> world" where
  "try_download env u output_path w =
     (if makedirs_raises env (os_path_dirname output_path) then (False, w)
      else
        (let w1 = w\<lparr>requests_log := requests_log w @ [u]\<rparr>
         in case session_get env u of
              GetRaises \<Rightarrow> (False, w1)
            | GetResponse status_code header chunks fin \<Rightarrow>
                if raise_for_status status_code then (False, w1)
                else if total_size_of header = None then (False, w1)
                else if open_raises env output_path then (False, w1)
                else write_chunks env output_path chunks fin []
                       (w1\<lparr>files := (files w1)(output_path \<mapsto> [])\<rparr>)))"

text \<open>
  \<^verbatim>\<open>download_file\<close> with its handler:
  \<^verbatim>\<open>
  except Exception as e:
      print(f"Error downloading {url}: {str(e)}")
      if os.path.exists(output_path):
          os.remove(output_path)
      return False
  \<close>
  \<^verbatim>\<open>os.remove\<close> is called outside any \<^verbatim>\<open>try\<close>: when it raises, the exception leaves
  \<^verbatim>\<open>download_file\<close>.
\<close>

definition download_file ::
  "environment \<Rightarrow> string \<Rightarrow> path \<Rightarrow> world \<Rightarrow> (error + bool) \<times> world" where
  "download_file env u output_path w =
     (case try_download env u output_path w of
        (True, w') \<Rightarrow> (Inr True, w')
      | (False, w') \<Rightarrow>
          if files w' output_path \<noteq> None then
            (if remove_raises env output_path then (Inl OSError, w')
             else (Inr False, w'\<lparr>files := (files w')(output_path := None)\<rparr>))
          else (Inr False, w'))"

subsection \<open>The batch\<close>

text \<open>
  The download loop of \<^verbatim>\<open>main\<close>:
  \<^verbatim>\<open>
  successful_downloads = 0
  for file in filtered_files:
      output_path = os.path.join(args.output_dir, file["filename"])
      if os.path.exists(output_path):
          if os.path.getsize(output_path) == file["size"]:
              successful_downloads += 1
              continue
      if download_file(file["url"], output_path, session):
          successful_downloads += 1
  \<close>
\<close>

definition already_downloaded :: "world \<Rightarrow> path \<Rightarrow> file_record \<Rightarrow> bool" where
  "already_downloaded w output_path file =
     (case files w output_path of
        None \<Rightarrow> False
      | Some content \<Rightarrow> length content = size file)"

fun download_loop ::
  "environment \<Rightarrow> path \<Rightarrow> file_record list \<Rightarrow> nat \<Rightarrow> world \<Rightarrow> (error + nat) \<times> world" where
  "download_loop env output_dir [] successful_downloads w = (Inr successful_downloads, w)"
| "download_loop env output_dir (file # rest) successful_downloads w =
     (let output_path = os_path_join output_dir (filename file)
      in if already_downloaded w output_path file
         then download_loop env output_dir rest (successful_downloads + 1) w
         else (case download_file env (url file) output_path w of
                 (Inl e, w') \<Rightarrow> (Inl e, w')
               | (Inr ok, w') \<Rightarrow>
                   download_loop env output_dir rest
                     (if ok then successful_downloads + 1 else successful_downloads) w'))"

definition download_all ::
  "environment \<Rightarrow> path \<Rightarrow> file_record list \<Rightarrow> world \<Rightarrow> (error + nat) \<times> world" where
  "download_all env output_dir filtered_files w = download_loop env output_dir filtered_files 0 w"

section \<open>Auxiliary notions and fixtures\<close>

text \<open>
  What one probe contributes to the catalog, whether it ends without an exception,
  and all contributions of a run of the two loops in the order of probing.
\<close>

definition found_of :: "environment \<Rightarrow> string \<Rightarrow> int \<Rightarrow> int \<Rightarrow> file_record list" where
  "found_of env base_url y m =
     (case probe_candidate env base_url y m of Inl e \<Rightarrow> [] | Inr found \<Rightarrow> found)"

definition probe_ok :: "environment \<Rightarrow> string \<Rightarrow> int \<Rightarrow> int \<Rightarrow> bool" where
  "probe_ok env base_url y m = (\<not> isl (probe_candidate env base_url y m))"

definition all_found :: "environment \<Rightarrow> string \<Rightarrow> int list \<Rightarrow> int list \<Rightarrow> file_record list" where
  "all_found env base_url ys ms =
     concat (map (\<lambda>y. concat (map (found_of env base_url y) ms)) ys)"

text \<open>
  A remote host for the examples.  It has the files of January and March 2020 (the
  first without a declared length), the probe of February 2020 runs into a network
  failure, and every other address answers 404.  The body of March 2020 arrives in
  three chunks, one of them empty; January 2020 is served without a declared
  length.  No file-system call raises.
\<close>

definition fixture_env :: environment where
  "fixture_env =
     \<lparr>urljoin = (\<lambda>base name. base @ name),
      session_head = (\<lambda>u.
         if u = ''https://host/202003-divvy-tripdata.zip'' then HeadResponse 200 (Some ''5'')
         else if u = ''https://host/202001-divvy-tripdata.zip'' then HeadResponse 200 None
         else if u = ''https://host/202002-divvy-tripdata.zip'' then HeadRequestException
         else HeadResponse 404 None),
      session_get = (\<lambda>u.
         if u = ''https://host/202003-divvy-tripdata.zip''
           then GetResponse 200 (Some ''5'') [''ab'', [], ''cde''] EndOfBody
         else if u = ''https://host/202001-divvy-tripdata.zip''
           then GetResponse 200 None [''xyz''] EndOfBody
         else GetResponse 404 None [] EndOfBody),
      makedirs_raises = (\<lambda>p. False),
      open_raises = (\<lambda>p. False),
      write_raises = (\<lambda>p n. False),
      remove_raises = (\<lambda>p. False)\<rparr>"

definition fixture_catalog :: "file_record list" where
  "fixture_catalog =
     [\<lparr>filename = ''202001-divvy-tripdata.zip'', url = ''https://host/202001-divvy-tripdata.zip'',
        size = 0, size_mb = 0, year = 2020, month = 1\<rparr>,
      \<lparr>filename = ''202003-divvy-tripdata.zip'', url = ''https://host/202003-divvy-tripdata.zip'',
        size = 5, size_mb = 0, year = 2020, month = 3\<rparr>]"

text \<open>
  A selection of three files for the download loop, and a local directory that
  already holds the first of them with its full length of ten bytes.
\<close>

definition selected_files :: "file_record list" where
  "selected_files =
     [\<lparr>filename = ''201912-divvy-tripdata.zip'', url = ''https://host/201912-divvy-tripdata.zip'',
        size = 10, size_mb = 0, year = 2019, month = 12\<rparr>,
      \<lparr>filename = ''202001-divvy-tripdata.zip'', url = ''https://host/202001-divvy-tripdata.zip'',
        size = 0, size_mb = 0, year = 2020, month = 1\<rparr>,
      \<lparr>filename = ''202003-divvy-tripdata.zip'', url = ''https://host/202003-divvy-tripdata.zip'',
        size = 5, size_mb = 0, year = 2020, month = 3\<rparr>]"

definition local_with_first :: world where
  "local_with_first =
     \<lparr>files = [''data/201912-divvy-tripdata.zip'' \<mapsto> ''0123456789''], requests_log = []\<rparr>"

text \<open>
  The same host seen from a machine whose download directory cannot be changed:
  every \<^verbatim>\<open>os.remove\<close> raises.  The directory holds a stale copy of three bytes of
  the file of December 2019, which the host no longer has (404).
\<close>

definition readonly_env :: environment where
  "readonly_env = fixture_env\<lparr>remove_raises := (\<lambda>p. True)\<rparr>"

definition local_with_stale :: world where
  "local_with_stale =
     \<lparr>files = [''data/201912-divvy-tripdata.zip'' \<mapsto> ''old''], requests_log = []\<rparr>"

section \<open>Properties of the filter stage\<close>

lemma quarter_months_group:
  "q \<in> {1, 2, 3, 4} \<Longrightarrow> \<exists>ms. quarter_months q = Some ms \<and> set ms = quarter_group q"
  by (auto simp: quarter_months_def quarter_group_def)

lemma filter_files_by_quarter_valid:
  assumes "y \<noteq> 0" and "q \<in> {1, 2, 3, 4}"
  shows "filter_files_by_quarter catalog (Some y) (Some q) = Inr (spec_filter_by_quarter catalog y q)"
proof -
  from assms(2) obtain ms where ms: "quarter_months q = Some ms" "set ms = quarter_group q"
    using quarter_months_group by blast
  from assms(2) have "q \<noteq> 0" by auto
  with assms ms show ?thesis
    by (simp add: filter_files_by_quarter_def spec_filter_by_quarter_def)
qed

text \<open>
  Claim C3, as amended.  For every catalog, every year other than 0 and every
  quarter in {1,2,3,4}, \<open>filter_files_by_quarter\<close> returns exactly the records whose
  year is the given year and whose month lies in the month group of the quarter
  (Q1 = {1,2,3}, Q2 = {4,5,6}, Q3 = {7,8,9}, Q4 = {10,11,12}), in their order in the
  catalog.
\<close>

theorem filter_by_quarter_selects_group:
  assumes "y \<noteq> 0" and "q \<in> {1, 2, 3, 4}"
  shows "filter_files_by_quarter catalog (Some y) (Some q)
         = Inr [r \<leftarrow> catalog. year r = y \<and> month r \<in> quarter_group q]"
  using filter_files_by_quarter_valid [OF assms, of catalog]
  by (simp add: spec_filter_by_quarter_def)

theorem filter_by_quarter_selects_group_witness:
  "(2021::int) \<noteq> 0 \<and> (2::int) \<in> {1, 2, 3, 4} \<and>
   filter_files_by_quarter
     [\<lparr>filename = ''202103-divvy-tripdata.zip'', url = ''u1'', size = 7, size_mb = 0,
       year = 2021, month = 3\<rparr>,
      \<lparr>filename = ''202105-divvy-tripdata.zip'', url = ''u2'', size = 8, size_mb = 0,
       year = 2021, month = 5\<rparr>,
      \<lparr>filename = ''202004-divvy-tripdata.zip'', url = ''u3'', size = 9, size_mb = 0,
       year = 2020, month = 4\<rparr>,
      \<lparr>filename = ''202104-divvy-tripdata.zip'', url = ''u4'', size = 9, size_mb = 0,
       year = 2021, month = 4\<rparr>]
     (Some 2021) (Some 2)
   = Inr [\<lparr>filename = ''202105-divvy-tripdata.zip'', url = ''u2'', size = 8, size_mb = 0,
            year = 2021, month = 5\<rparr>,
          \<lparr>filename = ''202104-divvy-tripdata.zip'', url = ''u4'', size = 9, size_mb = 0,
            year = 2021, month = 4\<rparr>]"
  using filter_by_quarter_selects_group [of 2021 2]
  by (simp add: quarter_group_def)

text \<open>
  Claim C3 as it is written fails for the year 0, which the truthiness test takes
  for an absent year: the catalog comes back whole, although none of its records
  has the year 0.
\<close>

theorem filter_by_quarter_year_zero_counterexample:
  "(1::int) \<in> {1, 2, 3, 4} \<and>
   filter_files_by_quarter
     [\<lparr>filename = ''202101-divvy-tripdata.zip'', url = ''u1'', size = 7, size_mb = 0,
       year = 2021, month = 1\<rparr>]
     (Some 0) (Some 1)
   \<noteq> Inr (spec_filter_by_quarter
       [\<lparr>filename = ''202101-divvy-tripdata.zip'', url = ''u1'', size = 7, size_mb = 0,
         year = 2021, month = 1\<rparr>]
       0 1)"
  by (simp add: filter_files_by_quarter_def spec_filter_by_quarter_def)

text \<open>
  Claim C4, as amended.  For every catalog, whenever the year and the quarter are
  both supplied and not 0, and the quarter is outside {1,2,3,4},
  \<open>filter_files_by_quarter\<close> raises the \<^verbatim>\<open>ValueError\<close> and returns no filtered list.
\<close>

theorem filter_by_quarter_rejects_invalid:
  assumes "y \<noteq> 0" and "q \<noteq> 0" and "q \<notin> {1, 2, 3, 4}"
  shows "filter_files_by_quarter catalog (Some y) (Some q)
         = Inl (ValueError ''Quarter must be 1, 2, 3, or 4'')"
  using assms by (simp add: filter_files_by_quarter_def)

theorem filter_by_quarter_rejects_invalid_witness:
  "(2021::int) \<noteq> 0 \<and> (5::int) \<noteq> 0 \<and> (5::int) \<notin> {1, 2, 3, 4} \<and>
   filter_files_by_quarter
     [\<lparr>filename = ''202101-divvy-tripdata.zip'', url = ''u1'', size = 7, size_mb = 0,
       year = 2021, month = 1\<rparr>]
     (Some 2021) (Some 5)
   = Inl (ValueError ''Quarter must be 1, 2, 3, or 4'')"
  using filter_by_quarter_rejects_invalid [of 2021 5] by simp

text \<open>
  Claim C4 as it is written fails for the quarter 0: it is supplied and outside
  {1,2,3,4}, and the catalog comes back unchanged instead of an error.
\<close>

theorem filter_by_quarter_zero_counterexample:
  "(0::int) \<notin> {1, 2, 3, 4} \<and>
   filter_files_by_quarter
     [\<lparr>filename = ''202101-divvy-tripdata.zip'', url = ''u1'', size = 7, size_mb = 0,
       year = 2021, month = 1\<rparr>]
     (Some 2021) (Some 0)
   = Inr [\<lparr>filename = ''202101-divvy-tripdata.zip'', url = ''u1'', size = 7, size_mb = 0,
            year = 2021, month = 1\<rparr>]"
  by (simp add: filter_files_by_quarter_def)

text \<open>
  Claim C5, as amended.  For every catalog, \<open>filter_files_by_year\<close> with a supplied
  year other than 0 returns exactly the records whose year is that value, in their
  order in the catalog; with the year absent it returns the catalog itself.
\<close>

theorem filter_by_year_selects_year:
  "(y \<noteq> 0 \<longrightarrow> filter_files_by_year catalog (Some y) = [r \<leftarrow> catalog. year r = y]) \<and>
   filter_files_by_year catalog None = catalog"
  by (simp add: filter_files_by_year_def)

theorem filter_by_year_selects_year_witness:
  "(2021::int) \<noteq> 0 \<and>
   filter_files_by_year
     [\<lparr>filename = ''202103-divvy-tripdata.zip'', url = ''u1'', size = 7, size_mb = 0,
       year = 2021, month = 3\<rparr>,
      \<lparr>filename = ''202004-divvy-tripdata.zip'', url = ''u3'', size = 9, size_mb = 0,
       year = 2020, month = 4\<rparr>,
      \<lparr>filename = ''202101-divvy-tripdata.zip'', url = ''u4'', size = 9, size_mb = 0,
       year = 2021, month = 1\<rparr>]
     (Some 2021)
   = [\<lparr>filename = ''202103-divvy-tripdata.zip'', url = ''u1'', size = 7, size_mb = 0,
        year = 2021, month = 3\<rparr>,
      \<lparr>filename = ''202101-divvy-tripdata.zip'', url = ''u4'', size = 9, size_mb = 0,
        year = 2021, month = 1\<rparr>]"
  using filter_by_year_selects_year [of 2021
     "[\<lparr>filename = ''202103-divvy-tripdata.zip'', url = ''u1'', size = 7, size_mb = 0,
        year = 2021, month = 3\<rparr>,
       \<lparr>filename = ''202004-divvy-tripdata.zip'', url = ''u3'', size = 9, size_mb = 0,
        year = 2020, month = 4\<rparr>,
       \<lparr>filename = ''202101-divvy-tripdata.zip'', url = ''u4'', size = 9, size_mb = 0,
        year = 2021, month = 1\<rparr>]"]
  by simp

text \<open>
  Claim C5 as it is written fails for the supplied year 0: the catalog comes back
  whole, although none of its records has the year 0.
\<close>

theorem filter_by_year_zero_counterexample:
  "filter_files_by_year
     [\<lparr>filename = ''202101-divvy-tripdata.zip'', url = ''u1'', size = 7, size_mb = 0,
       year = 2021, month = 1\<rparr>]
     (Some 0)
   \<noteq> spec_filter_by_year
       [\<lparr>filename = ''202101-divvy-tripdata.zip'', url = ''u1'', size = 7, size_mb = 0,
         year = 2021, month = 1\<rparr>]
       0"
  by (simp add: filter_files_by_year_def spec_filter_by_year_def)

text \<open>
  Claim C9, as amended.  For every catalog, every supplied year and every supplied
  quarter other than 0, filtering by year and then by quarter gives the same result
  (the same list or the same error) as filtering by quarter alone; and
  \<open>filter_files_by_quarter\<close> with the year or the quarter absent returns its input.
\<close>

theorem filter_layering:
  "(q \<noteq> 0 \<longrightarrow>
      filter_files_by_quarter (filter_files_by_year catalog (Some y)) (Some y) (Some q)
      = filter_files_by_quarter catalog (Some y) (Some q)) \<and>
   filter_files_by_quarter catalog None quarter = Inr catalog \<and>
   filter_files_by_quarter catalog yr None = Inr catalog"
  by (auto simp: filter_files_by_quarter_def filter_files_by_year_def
           split: option.splits intro: filter_cong)

theorem filter_layering_witness:
  "(2::int) \<noteq> 0 \<and>
   filter_files_by_quarter
     (filter_files_by_year
        [\<lparr>filename = ''202105-divvy-tripdata.zip'', url = ''u2'', size = 8, size_mb = 0,
          year = 2021, month = 5\<rparr>,
         \<lparr>filename = ''202004-divvy-tripdata.zip'', url = ''u3'', size = 9, size_mb = 0,
          year = 2020, month = 4\<rparr>]
        (Some 2021))
     (Some 2021) (Some 2)
   = Inr [\<lparr>filename = ''202105-divvy-tripdata.zip'', url = ''u2'', size = 8, size_mb = 0,
            year = 2021, month = 5\<rparr>]"
  using filter_layering [of 2
     "[\<lparr>filename = ''202105-divvy-tripdata.zip'', url = ''u2'', size = 8, size_mb = 0,
        year = 2021, month = 5\<rparr>,
       \<lparr>filename = ''202004-divvy-tripdata.zip'', url = ''u3'', size = 9, size_mb = 0,
        year = 2020, month = 4\<rparr>]" 2021]
  by (simp add: filter_files_by_quarter_def quarter_months_def)

text \<open>
  Claim C9 as it is written fails for the supplied quarter 0: after the year
  filter the record of 2020 is gone, while \<open>filter_files_by_quarter\<close> alone returns
  the catalog unchanged.
\<close>

theorem filter_layering_quarter_zero_counterexample:
  "filter_files_by_quarter
     (filter_files_by_year
        [\<lparr>filename = ''202004-divvy-tripdata.zip'', url = ''u3'', size = 9, size_mb = 0,
          year = 2020, month = 4\<rparr>]
        (Some 2021))
     (Some 2021) (Some 0)
   \<noteq> filter_files_by_quarter
       [\<lparr>filename = ''202004-divvy-tripdata.zip'', url = ''u3'', size = 9, size_mb = 0,
         year = 2020, month = 4\<rparr>]
       (Some 2021) (Some 0)"
  by (simp add: filter_files_by_quarter_def filter_files_by_year_def)

text \<open>
  In \<^verbatim>\<open>main\<close> the quarter filter runs only when the year and the quarter are both
  truthy, so there the two filters in sequence always amount to the quarter filter
  alone, and to the year filter when the quarter is absent or 0.
\<close>

lemma main_apply_filters_eq:
  "main_apply_filters all_files yr quarter =
     (if truthy yr \<and> truthy quarter then filter_files_by_quarter all_files yr quarter
      else Inr (filter_files_by_year all_files yr))"
  by (auto simp: main_apply_filters_def filter_files_by_quarter_def filter_files_by_year_def
           split: option.splits intro: filter_cong)

text \<open>
  Claim C10.  The integer 0 is an absent argument for both filters:
  \<open>filter_files_by_year\<close> with the year 0 returns the catalog unchanged, and
  \<open>filter_files_by_quarter\<close> with any truthy year and the quarter 0 returns the
  catalog unchanged and raises nothing, although 0 is outside {1,2,3,4}.
\<close>

theorem zero_is_absent:
  "filter_files_by_year catalog (Some 0) = catalog \<and>
   (truthy yr \<longrightarrow> filter_files_by_quarter catalog yr (Some 0) = Inr catalog) \<and>
   (0::int) \<notin> {1, 2, 3, 4}"
  by (simp add: filter_files_by_year_def filter_files_by_quarter_def)

theorem zero_is_absent_witness:
  "truthy (Some 2021) \<and>
   filter_files_by_year
     [\<lparr>filename = ''202004-divvy-tripdata.zip'', url = ''u3'', size = 9, size_mb = 0,
       year = 2020, month = 4\<rparr>] (Some 0)
   = [\<lparr>filename = ''202004-divvy-tripdata.zip'', url = ''u3'', size = 9, size_mb = 0,
        year = 2020, month = 4\<rparr>] \<and>
   filter_files_by_quarter
     [\<lparr>filename = ''202004-divvy-tripdata.zip'', url = ''u3'', size = 9, size_mb = 0,
       year = 2020, month = 4\<rparr>] (Some 2021) (Some 0)
   = Inr [\<lparr>filename = ''202004-divvy-tripdata.zip'', url = ''u3'', size = 9, size_mb = 0,
            year = 2020, month = 4\<rparr>]"
  using zero_is_absent [of
     "[\<lparr>filename = ''202004-divvy-tripdata.zip'', url = ''u3'', size = 9, size_mb = 0,
        year = 2020, month = 4\<rparr>]" "Some 2021"]
  by simp

section \<open>Properties of the catalog builder\<close>

subsection \<open>File names\<close>

lemma nat_digits_small: "n < 10 \<Longrightarrow> nat_digits n = [digit_char n]"
  by (subst nat_digits.simps) simp

lemma nat_digits_step:
  "10 \<le> n \<Longrightarrow> nat_digits n = nat_digits (n div 10) @ [digit_char (n mod 10)]"
  by (subst nat_digits.simps) simp

lemma nat_digits_4:
  assumes "1000 \<le> n" "n < 10000"
  shows "nat_digits n = [digit_char (n div 1000), digit_char (n div 100 mod 10),
                         digit_char (n div 10 mod 10), digit_char (n mod 10)]"
proof -
  have e1: "n div 10 div 10 = n div 100" and e2: "n div 100 div 10 = n div 1000"
    by (simp_all add: div_mult2_eq [symmetric])
  have g: "10 \<le> n" "10 \<le> n div 10" "10 \<le> n div 100" "n div 1000 < 10"
    using assms by simp_all
  have "nat_digits (n div 100) = [digit_char (n div 1000), digit_char (n div 100 mod 10)]"
    using nat_digits_step [OF g(3)] nat_digits_small [OF g(4)] by (simp add: e2)
  then have "nat_digits (n div 10) =
       [digit_char (n div 1000), digit_char (n div 100 mod 10), digit_char (n div 10 mod 10)]"
    using nat_digits_step [OF g(2)] by (simp add: e1)
  then show ?thesis
    using nat_digits_step [OF g(1)] by simp
qed

lemma format_02d_2:
  assumes "0 \<le> m" "m < 100"
  shows "format_02d m = [digit_char (nat m div 10), digit_char (nat m mod 10)]"
proof (cases "m < 10")
  case True
  with assms have "nat m < 10" by simp
  then have "nat_digits (nat m) = [digit_char (nat m)]" "nat m div 10 = 0" "nat m mod 10 = nat m"
    by (simp_all add: nat_digits_small)
  with assms show ?thesis
    by (simp add: format_02d_def zero_pad_def digit_char_def)
next
  case False
  with assms have g: "10 \<le> nat m" "nat m div 10 < 10" by simp_all
  have "nat_digits (nat m) = [digit_char (nat m div 10), digit_char (nat m mod 10)]"
    using nat_digits_step [OF g(1)] nat_digits_small [OF g(2)] by simp
  with assms show ?thesis by (simp add: format_02d_def zero_pad_def)
qed

lemma candidate_filename_spec:
  assumes "1000 \<le> y" "y < 10000" "0 \<le> m" "m < 100"
  shows "candidate_filename y m = spec_filename y m"
  using assms nat_digits_4 [of "nat y"] format_02d_2 [of m]
  by (simp add: candidate_filename_def spec_filename_def str_int_def)

lemma month_range_eq: "month_range = [1, 2, 3, 4, 5, 6, 7, 8, 9, 10, 11, 12]"
  by (simp add: month_range_def upto_rec1)

lemma year_range_eq: "year_range = [2013, 2014, 2015, 2016, 2017, 2018, 2019, 2020, 2021, 2022, 2023, 2024]"
  by (simp add: year_range_def)

subsection \<open>The loops\<close>

lemma probe_candidate_not_found:
  "\<not> probe_found env (candidate_url env base_url y m) \<Longrightarrow> probe_candidate env base_url y m = Inr []"
  by (auto simp: probe_candidate_def probe_found_def candidate_url_def Let_def
           split: head_outcome.splits)

lemma probe_candidate_Inr:
  assumes "probe_candidate env base_url y m = Inr found"
  shows "(\<not> probe_found env (candidate_url env base_url y m) \<and> found = []) \<or>
         (probe_found env (candidate_url env base_url y m) \<and>
          (\<exists>sz. found = [\<lparr>filename = candidate_filename y m, url = candidate_url env base_url y m,
                          size = sz, size_mb = size_mb_of sz, year = y, month = m\<rparr>]))"
  using assms
  by (auto simp: probe_candidate_def probe_found_def candidate_url_def Let_def
           split: head_outcome.splits if_splits option.splits)

lemma found_of_cases:
  "(\<not> probe_found env (candidate_url env base_url y m) \<and> found_of env base_url y m = []) \<or>
   (\<exists>sz. found_of env base_url y m =
           [\<lparr>filename = candidate_filename y m, url = candidate_url env base_url y m,
             size = sz, size_mb = size_mb_of sz, year = y, month = m\<rparr>] \<and>
         probe_found env (candidate_url env base_url y m)) \<or>
   (found_of env base_url y m = [] \<and> \<not> probe_ok env base_url y m)"
proof (cases "probe_candidate env base_url y m")
  case (Inl e)
  then show ?thesis by (simp add: found_of_def probe_ok_def)
next
  case (Inr found)
  then have "found_of env base_url y m = found" by (simp add: found_of_def)
  with probe_candidate_Inr [OF Inr] show ?thesis by auto
qed

lemma found_of_keys:
  "map sort_key_of (found_of env base_url y m) = (if found_of env base_url y m = [] then [] else [(y, m)])"
  using found_of_cases [of env base_url y m] by (auto simp: sort_key_of_def)

lemma found_of_elem:
  assumes "r \<in> set (found_of env base_url y m)"
  shows "year r = y \<and> month r = m \<and> filename r = candidate_filename y m \<and>
         url r = candidate_url env base_url y m \<and> probe_found env (url r)"
  using assms found_of_cases [of env base_url y m] by auto

lemma found_of_nonempty:
  assumes "probe_ok env base_url y m" "probe_found env (candidate_url env base_url y m)"
  shows "\<exists>r. found_of env base_url y m = [r]"
  using assms found_of_cases [of env base_url y m] by auto

lemma probe_months_iff:
  "probe_months env base_url y ms acc = Inr res \<longleftrightarrow>
     (\<forall>m\<in>set ms. probe_ok env base_url y m) \<and>
     res = acc @ concat (map (found_of env base_url y) ms)"
  by (induction ms arbitrary: acc) (auto simp: probe_ok_def found_of_def split: sum.splits)

lemma probe_years_iff:
  "probe_years env base_url ys ms acc = Inr res \<longleftrightarrow>
     (ms \<noteq> [] \<longrightarrow> (\<forall>y\<in>set ys. \<forall>m\<in>set ms. probe_ok env base_url y m)) \<and>
     res = acc @ concat (map (\<lambda>y. concat (map (found_of env base_url y) ms)) ys)"
proof (induction ys arbitrary: acc)
  case Nil
  then show ?case by auto
next
  case (Cons y ys)
  show ?case
  proof (cases "probe_months env base_url y ms acc")
    case (Inl e)
    then have "\<not> (\<forall>m\<in>set ms. probe_ok env base_url y m)"
      using probe_months_iff [of env base_url y ms acc] by auto
    with Inl show ?thesis by auto
  next
    case (Inr acc')
    then have *: "(\<forall>m\<in>set ms. probe_ok env base_url y m)"
      "acc' = acc @ concat (map (found_of env base_url y) ms)"
      using probe_months_iff [of env base_url y ms acc acc'] by auto
    show ?thesis using Inr * Cons.IH [of acc'] by auto
  qed
qed


lemma set_all_found:
  "set (all_found env base_url ys ms) = (\<Union>y\<in>set ys. \<Union>m\<in>set ms. set (found_of env base_url y m))"
  by (simp add: all_found_def)

lemma keys_of_year:
  "map sort_key_of (concat (map (found_of env base_url y) ms)) =
   map (Pair y) [m \<leftarrow> ms. found_of env base_url y m \<noteq> []]"
  by (induction ms) (simp_all add: found_of_keys)

lemma keys_all_found:
  "map sort_key_of (all_found env base_url ys ms) =
   concat (map (\<lambda>y. map (Pair y) [m \<leftarrow> ms. found_of env base_url y m \<noteq> []]) ys)"
  by (induction ys) (simp_all add: all_found_def keys_of_year)

lemma distinct_keys_all_found:
  assumes "distinct ys" "distinct ms"
  shows "distinct (map sort_key_of (all_found env base_url ys ms))"
  unfolding keys_all_found
  using assms(1)
proof (induction ys)
  case Nil
  then show ?case by simp
next
  case (Cons y ys)
  have "distinct (map (Pair y) [m \<leftarrow> ms. found_of env base_url y m \<noteq> []])"
    using assms(2) by (simp add: distinct_map inj_on_def)
  moreover have "set (map (Pair y) [m \<leftarrow> ms. found_of env base_url y m \<noteq> []]) \<inter>
        set (concat (map (\<lambda>y. map (Pair y) [m \<leftarrow> ms. found_of env base_url y m \<noteq> []]) ys)) = {}"
    using Cons.prems by auto
  ultimately show ?case using Cons by simp
qed

lemma discover_iff:
  "discover env base_url ys ms = Inr catalog \<longleftrightarrow>
     (ms \<noteq> [] \<longrightarrow> (\<forall>y\<in>set ys. \<forall>m\<in>set ms. probe_ok env base_url y m)) \<and>
     catalog = sort_key sort_key_of (all_found env base_url ys ms)"
proof (cases "probe_years env base_url ys ms []")
  case (Inl e)
  then show ?thesis
    using probe_years_iff [of env base_url ys ms "[]"]
    by (auto simp: discover_def all_found_def)
next
  case (Inr res)
  then show ?thesis
    using probe_years_iff [of env base_url ys ms "[]" res]
    by (auto simp: discover_def all_found_def)
qed

lemma sort_key_unique:
  fixes f :: "'a \<Rightarrow> 'k::linorder"
  assumes "distinct (map f xs)" "distinct (map f ys)" "set xs = set ys"
  shows "sort_key f xs = sort_key f ys"
proof -
  have inj: "inj_on f (set xs \<union> set ys)"
    using assms by (simp add: distinct_map)
  have "map f (sort_key f xs) = map f (sort_key f ys)"
  proof (rule sorted_distinct_set_unique)
    show "sorted (map f (sort_key f xs))" by simp
    show "sorted (map f (sort_key f ys))" by simp
    show "distinct (map f (sort_key f xs))" using assms(1) by (simp add: distinct_map)
    show "distinct (map f (sort_key f ys))" using assms(2) by (simp add: distinct_map)
    show "set (map f (sort_key f xs)) = set (map f (sort_key f ys))" using assms(3) by simp
  qed
  moreover have "inj_on f (set (sort_key f xs) \<union> set (sort_key f ys))"
    using inj by simp
  ultimately show ?thesis
    by (simp add: inj_on_map_eq_map)
qed

lemma discover_any_order:
  assumes "discover env base_url ys ms = Inr catalog"
    and "distinct ys" "distinct ms" "distinct ys'" "distinct ms'"
    and "set ys' = set ys" "set ms' = set ms"
  shows "discover env base_url ys' ms' = Inr catalog"
proof -
  from assms(1) have ok: "ms \<noteq> [] \<longrightarrow> (\<forall>y\<in>set ys. \<forall>m\<in>set ms. probe_ok env base_url y m)"
    and cat: "catalog = sort_key sort_key_of (all_found env base_url ys ms)"
    by (simp_all add: discover_iff)
  have "ms' = [] \<longleftrightarrow> ms = []" using assms(7) by (metis set_empty)
  with ok assms(6,7)
  have ok': "ms' \<noteq> [] \<longrightarrow> (\<forall>y\<in>set ys'. \<forall>m\<in>set ms'. probe_ok env base_url y m)"
    by simp
  have "set (all_found env base_url ys' ms') = set (all_found env base_url ys ms)"
    by (simp add: set_all_found assms(6,7))
  then have "sort_key sort_key_of (all_found env base_url ys' ms') =
             sort_key sort_key_of (all_found env base_url ys ms)"
    by (intro sort_key_unique distinct_keys_all_found assms)
  with ok' cat show ?thesis by (simp add: discover_iff)
qed

section \<open>Properties of the download executor\<close>

lemma download_loop_append:
  "download_loop env d (xs @ ys) n w =
     (case download_loop env d xs n w of
        (Inl e, w') \<Rightarrow> (Inl e, w')
      | (Inr k, w') \<Rightarrow> download_loop env d ys k w')"
proof (induction xs arbitrary: n w)
  case Nil
  then show ?case by simp
next
  case (Cons x xs)
  show ?case
  proof (cases "already_downloaded w (os_path_join d (filename x)) x")
    case True
    then show ?thesis using Cons.IH by (simp add: Let_def)
  next
    case False
    obtain res w' where dl: "download_file env (url x) (os_path_join d (filename x)) w = (res, w')"
      by (cases "download_file env (url x) (os_path_join d (filename x)) w")
    show ?thesis
    proof (cases res)
      case (Inl e)
      with False dl show ?thesis by (simp add: Let_def)
    next
      case (Inr ok)
      with False dl show ?thesis using Cons.IH by (simp add: Let_def)
    qed
  qed
qed

lemma download_loop_all_skipped:
  "\<forall>f\<in>set fs. already_downloaded w (os_path_join d (filename f)) f \<Longrightarrow>
   download_loop env d fs n w = (Inr (n + length fs), w)"
  by (induction fs arbitrary: n) (simp_all add: Let_def)

lemma write_chunks_files_other:
  "write_chunks env p chunks fin written w = (ok, w') \<Longrightarrow>
   requests_log w' = requests_log w \<and> (\<forall>q. q \<noteq> p \<longrightarrow> files w' q = files w q)"
  by (induction chunks arbitrary: written w) (auto split: if_splits)

lemma try_download_other:
  assumes "try_download env u p w = (ok, w')"
  shows "\<forall>q. q \<noteq> p \<longrightarrow> files w' q = files w q"
  using assms
  by (auto simp: try_download_def Let_def split: if_splits get_outcome.splits
           dest!: write_chunks_files_other)

lemma download_file_contained:
  assumes "\<not> remove_raises env p"
  shows "\<exists>ok w'. download_file env u p w = (Inr ok, w') \<and> (\<not> ok \<longrightarrow> files w' p = None)"
proof (cases "try_download env u p w")
  case (Pair ok w1)
  then show ?thesis using assms
    by (cases ok) (auto simp: download_file_def)
qed

lemma download_loop_contained:
  assumes "\<forall>f\<in>set fs. \<not> remove_raises env (os_path_join d (filename f))"
  shows "\<exists>k w'. download_loop env d fs n w = (Inr k, w') \<and> k \<le> n + length fs"
  using assms
proof (induction fs arbitrary: n w)
  case Nil
  then show ?case by simp
next
  case (Cons f fs)
  let ?p = "os_path_join d (filename f)"
  show ?case
  proof (cases "already_downloaded w ?p f")
    case True
    with Cons.IH [of "n + 1" w] Cons.prems show ?thesis by (auto simp: Let_def)
  next
    case False
    from Cons.prems have "\<not> remove_raises env ?p" by simp
    from download_file_contained [OF this, of "url f" w]
    obtain ok w' where dl: "download_file env (url f) ?p w = (Inr ok, w')" by blast
    from Cons.IH [of "if ok then n + 1 else n" w'] Cons.prems
    obtain k w'' where "download_loop env d fs (if ok then n + 1 else n) w' = (Inr k, w'')"
      "k \<le> (if ok then n + 1 else n) + length fs" by auto
    with False dl show ?thesis by (auto simp: Let_def split: if_splits)
  qed
qed

section \<open>The claims about the catalog builder\<close>

text \<open>The run on the example host finds the two files, in ascending order.\<close>

lemma fixture_run: "get_available_files fixture_env ''https://host/'' = Inr fixture_catalog"
  by (simp add: get_available_files_def discover_def year_range_eq month_range_eq fixture_env_def
        fixture_catalog_def probe_candidate_def candidate_filename_def
        str_int_def format_02d_def zero_pad_def digit_char_def nat_digits_small nat_digits_step
        str_isdigit_def is_digit_char_def is_ascii_digit_def py_int_def str_strip_def
        is_space_char_def int_of_digits_def digit_value_def size_mb_of_def round_half_even_def
        sort_key_of_def Let_def)

lemma in_year_range: "y \<in> set year_range \<longleftrightarrow> 2013 \<le> y \<and> y \<le> 2024"
  unfolding year_range_def by (simp only: set_upto atLeastAtMost_iff)

lemma in_month_range: "m \<in> set month_range \<longleftrightarrow> 1 \<le> m \<and> m \<le> 12"
  unfolding month_range_def by (simp only: set_upto atLeastAtMost_iff)

lemma catalog_elem:
  assumes "get_available_files env base_url = Inr catalog" and "r \<in> set catalog"
  shows "year r \<in> set year_range \<and> month r \<in> set month_range \<and>
         r \<in> set (found_of env base_url (year r) (month r))"
proof -
  from assms(1) have "catalog = sort_key sort_key_of (all_found env base_url year_range month_range)"
    by (simp add: get_available_files_def discover_iff)
  with assms(2) obtain y m where ym: "y \<in> set year_range" "m \<in> set month_range"
      "r \<in> set (found_of env base_url y m)"
    by (auto simp: set_all_found)
  from found_of_elem [OF ym(3)] ym show ?thesis by simp
qed

lemma catalog_complete:
  assumes "get_available_files env base_url = Inr catalog"
    and "y \<in> set year_range" "m \<in> set month_range"
    and "probe_found env (candidate_url env base_url y m)"
  shows "\<exists>r\<in>set catalog. year r = y \<and> month r = m \<and> url r = candidate_url env base_url y m"
proof -
  have ne: "month_range \<noteq> []" by (simp add: month_range_eq)
  from assms(1) have cat: "catalog = sort_key sort_key_of (all_found env base_url year_range month_range)"
    and ok: "\<forall>y\<in>set year_range. \<forall>m\<in>set month_range. probe_ok env base_url y m"
    using ne by (simp_all add: get_available_files_def discover_iff)
  from ok assms(2,3) have "probe_ok env base_url y m" by blast
  from found_of_nonempty [OF this assms(4)] obtain r where r: "found_of env base_url y m = [r]" ..
  then have "r \<in> set (found_of env base_url y m)" by simp
  from found_of_elem [OF this] have "year r = y \<and> month r = m \<and> url r = candidate_url env base_url y m"
    by simp
  moreover have "r \<in> (\<Union>y\<in>set year_range. \<Union>m\<in>set month_range. set (found_of env base_url y m))"
    using r assms(2,3) by force
  then have "r \<in> set catalog"
    by (simp only: cat set_sort set_all_found)
  ultimately show ?thesis by blast
qed

text \<open>
  Claim C6.  In every run that builds a catalog, a record is in the catalog if and
  only if the existence probe for its address was positive: every record of the
  catalog belongs to a year and month of the grid whose probe was answered with
  status 200, and every year and month of the grid with a positive probe has its
  record in the catalog.  The catalog is sorted in ascending order of (year, month),
  no two records share a year and month, and the loops run over the years and the
  months in any other order build the same catalog.
\<close>

theorem catalog_invariant:
  assumes "get_available_files env base_url = Inr catalog"
  shows "(\<forall>r\<in>set catalog.
            probe_found env (url r) \<and> url r = candidate_url env base_url (year r) (month r) \<and>
            2013 \<le> year r \<and> year r \<le> 2024 \<and> 1 \<le> month r \<and> month r \<le> 12) \<and>
         (\<forall>y m. 2013 \<le> y \<and> y \<le> 2024 \<and> 1 \<le> m \<and> m \<le> 12 \<and>
                probe_found env (candidate_url env base_url y m) \<longrightarrow>
                (\<exists>r\<in>set catalog. year r = y \<and> month r = m \<and>
                                  url r = candidate_url env base_url y m)) \<and>
         sorted (map sort_key_of catalog) \<and> distinct (map sort_key_of catalog) \<and>
         (\<forall>ys ms. distinct ys \<and> set ys = set year_range \<and> distinct ms \<and> set ms = set month_range
                  \<longrightarrow> discover env base_url ys ms = Inr catalog)"
proof (intro conjI ballI allI impI)
  fix r assume r: "r \<in> set catalog"
  from catalog_elem [OF assms r]
  have e: "year r \<in> set year_range" "month r \<in> set month_range"
    "r \<in> set (found_of env base_url (year r) (month r))" by blast+
  from found_of_elem [OF e(3)]
  show "probe_found env (url r)" "url r = candidate_url env base_url (year r) (month r)"
    by blast+
  from e(1,2)
  show "2013 \<le> year r" "year r \<le> 2024" "1 \<le> month r" "month r \<le> 12"
    by (simp_all only: in_year_range in_month_range)
next
  fix y m
  assume "2013 \<le> y \<and> y \<le> 2024 \<and> 1 \<le> m \<and> m \<le> 12 \<and> probe_found env (candidate_url env base_url y m)"
  then show "\<exists>r\<in>set catalog. year r = y \<and> month r = m \<and> url r = candidate_url env base_url y m"
    using catalog_complete [OF assms, of y m] by (simp add: in_year_range in_month_range)
next
  from assms have cat: "catalog = sort_key sort_key_of (all_found env base_url year_range month_range)"
    by (simp add: get_available_files_def discover_iff)
  show "sorted (map sort_key_of catalog)" by (simp add: cat)
  have "distinct year_range" "distinct month_range"
    by (simp_all add: year_range_def month_range_def)
  then have "distinct (map sort_key_of (all_found env base_url year_range month_range))"
    by (rule distinct_keys_all_found)
  then show "distinct (map sort_key_of catalog)"
    by (simp add: cat distinct_map)
next
  fix ys ms
  assume a: "distinct ys \<and> set ys = set year_range \<and> distinct ms \<and> set ms = set month_range"
  have d: "distinct year_range" "distinct month_range"
    by (simp_all add: year_range_def month_range_def)
  from assms have "discover env base_url year_range month_range = Inr catalog"
    by (simp add: get_available_files_def)
  from discover_any_order [OF this d, of ys ms] a
  show "discover env base_url ys ms = Inr catalog" by simp
qed

theorem catalog_invariant_witness:
  "get_available_files fixture_env ''https://host/'' = Inr fixture_catalog \<and>
   map sort_key_of fixture_catalog = [(2020, 1), (2020, 3)] \<and>
   sorted (map sort_key_of fixture_catalog) \<and>
   distinct (map sort_key_of fixture_catalog) \<and>
   list_all (\<lambda>r. probe_found fixture_env (url r)) fixture_catalog \<and>
   discover fixture_env ''https://host/'' (rev year_range) (rev month_range) = Inr fixture_catalog"
proof -
  have "distinct (rev year_range) \<and> set (rev year_range) = set year_range \<and>
        distinct (rev month_range) \<and> set (rev month_range) = set month_range"
    by (simp only: year_range_def month_range_def distinct_rev set_rev distinct_upto simp_thms)
  moreover have "map sort_key_of fixture_catalog = [(2020, 1), (2020, 3)]"
    by (simp add: fixture_catalog_def sort_key_of_def)
  ultimately show ?thesis
    using fixture_run catalog_invariant [OF fixture_run]
    unfolding list_all_iff by blast
qed

text \<open>
  Claim C7.  For every year from 2013 to 2024 and every month from 1 to 12 the
  constructed file name is the four digits of the year, the two digits of the month
  and \<^verbatim>\<open>-divvy-tripdata.zip\<close>, and the address is \<^verbatim>\<open>urljoin\<close> of the base address and
  that name; so it is for the record that the probe appends and for every record of
  a built catalog.  The year 2021 and the month 3 give
  \<^verbatim>\<open>202103-divvy-tripdata.zip\<close>.
\<close>

theorem filename_pattern:
  "(2013 \<le> y \<and> y \<le> 2024 \<and> 1 \<le> m \<and> m \<le> 12 \<longrightarrow>
      candidate_filename y m = spec_filename y m \<and>
      candidate_url env base_url y m = urljoin env base_url (spec_filename y m) \<and>
      (\<forall>found. probe_candidate env base_url y m = Inr found \<longrightarrow>
         (\<forall>r\<in>set found. filename r = spec_filename y m \<and>
                          url r = urljoin env base_url (spec_filename y m)))) \<and>
   (get_available_files env base_url = Inr catalog \<longrightarrow>
      (\<forall>r\<in>set catalog. filename r = spec_filename (year r) (month r) \<and>
                         url r = urljoin env base_url (spec_filename (year r) (month r)))) \<and>
   candidate_filename 2021 3 = ''202103-divvy-tripdata.zip''"
proof (intro conjI impI)
  assume a: "2013 \<le> y \<and> y \<le> 2024 \<and> 1 \<le> m \<and> m \<le> 12"
  then show e: "candidate_filename y m = spec_filename y m"
    by (intro candidate_filename_spec) simp_all
  then show u: "candidate_url env base_url y m = urljoin env base_url (spec_filename y m)"
    by (simp add: candidate_url_def)
  show "\<forall>found. probe_candidate env base_url y m = Inr found \<longrightarrow>
         (\<forall>r\<in>set found. filename r = spec_filename y m \<and>
                          url r = urljoin env base_url (spec_filename y m))"
  proof (intro allI impI ballI)
    fix found r
    assume "probe_candidate env base_url y m = Inr found" "r \<in> set found"
    then have "r \<in> set (found_of env base_url y m)" by (simp add: found_of_def)
    from found_of_elem [OF this] e u
    show "filename r = spec_filename y m \<and> url r = urljoin env base_url (spec_filename y m)"
      by simp
  qed
next
  assume g: "get_available_files env base_url = Inr catalog"
  show "\<forall>r\<in>set catalog. filename r = spec_filename (year r) (month r) \<and>
                         url r = urljoin env base_url (spec_filename (year r) (month r))"
  proof
    fix r assume "r \<in> set catalog"
    from catalog_elem [OF g this]
    have e: "year r \<in> set year_range" "month r \<in> set month_range"
      "r \<in> set (found_of env base_url (year r) (month r))" by blast+
    from e(1,2) have "candidate_filename (year r) (month r) = spec_filename (year r) (month r)"
      by (intro candidate_filename_spec) (simp_all add: in_year_range in_month_range)
    with found_of_elem [OF e(3)]
    show "filename r = spec_filename (year r) (month r) \<and>
          url r = urljoin env base_url (spec_filename (year r) (month r))"
      by (simp add: candidate_url_def)
  qed
next
  show "candidate_filename 2021 3 = ''202103-divvy-tripdata.zip''"
    by (simp add: candidate_filename_def str_int_def format_02d_def zero_pad_def digit_char_def
          nat_digits_small nat_digits_step)
qed

theorem filename_pattern_witness:
  "(2013::int) \<le> 2020 \<and> (2020::int) \<le> 2024 \<and> (1::int) \<le> 3 \<and> (3::int) \<le> 12 \<and>
   get_available_files fixture_env ''https://host/'' = Inr fixture_catalog \<and>
   candidate_filename 2020 3 = ''202003-divvy-tripdata.zip'' \<and>
   candidate_url fixture_env ''https://host/'' 2020 3 = ''https://host/202003-divvy-tripdata.zip'' \<and>
   map filename fixture_catalog = [spec_filename 2020 1, spec_filename 2020 3]"
  using fixture_run filename_pattern [of 2020 3 fixture_env "''https://host/''" fixture_catalog]
  by (simp add: spec_filename_def digit_char_def fixture_env_def fixture_catalog_def)

text \<open>
  Claim C8.  A probe is not positive exactly when the request raised a
  \<^verbatim>\<open>RequestException\<close> or was answered with a status other than 200.  Such a probe
  appends nothing and raises nothing; no record of a built catalog has the address
  of such a probe; and when no probe of the grid is positive the builder returns the
  empty catalog.
\<close>

theorem probe_failure_is_absence:
  "(\<not> probe_found env u \<longleftrightarrow>
      session_head env u = HeadRequestException \<or>
      (\<exists>status_code header. session_head env u = HeadResponse status_code header \<and>
                             status_code \<noteq> 200)) \<and>
   (\<not> probe_found env (candidate_url env base_url y m) \<longrightarrow>
      probe_candidate env base_url y m = Inr []) \<and>
   (get_available_files env base_url = Inr catalog \<and> \<not> probe_found env u \<longrightarrow>
      (\<forall>r\<in>set catalog. url r \<noteq> u)) \<and>
   ((\<forall>y\<in>set year_range. \<forall>m\<in>set month_range.
        \<not> probe_found env (candidate_url env base_url y m)) \<longrightarrow>
      get_available_files env base_url = Inr [])"
proof (intro conjI impI)
  show "(\<not> probe_found env u) =
        (session_head env u = HeadRequestException \<or>
         (\<exists>status_code header. session_head env u = HeadResponse status_code header \<and>
                                status_code \<noteq> 200))"
    by (cases "session_head env u") (simp_all add: probe_found_def)
next
  assume "\<not> probe_found env (candidate_url env base_url y m)"
  then show "probe_candidate env base_url y m = Inr []"
    by (rule probe_candidate_not_found)
next
  assume a: "get_available_files env base_url = Inr catalog \<and> \<not> probe_found env u"
  show "\<forall>r\<in>set catalog. url r \<noteq> u"
  proof
    fix r assume "r \<in> set catalog"
    from catalog_elem [OF conjunct1 [OF a] this]
    have "r \<in> set (found_of env base_url (year r) (month r))" by blast
    from found_of_elem [OF this] a show "url r \<noteq> u" by auto
  qed
next
  assume a: "\<forall>y\<in>set year_range. \<forall>m\<in>set month_range.
        \<not> probe_found env (candidate_url env base_url y m)"
  have p: "probe_candidate env base_url y m = Inr []"
    if "y \<in> set year_range" "m \<in> set month_range" for y m
    using a that by (intro probe_candidate_not_found) blast
  then have ok: "\<forall>y\<in>set year_range. \<forall>m\<in>set month_range. probe_ok env base_url y m"
    by (simp add: probe_ok_def)
  have "found_of env base_url y m = []" if "y \<in> set year_range" "m \<in> set month_range" for y m
    using p [OF that] by (simp add: found_of_def)
  then have "set (all_found env base_url year_range month_range) = {}"
    by (simp add: set_all_found)
  then have "all_found env base_url year_range month_range = []" by simp
  with ok show "get_available_files env base_url = Inr []"
    by (simp add: get_available_files_def discover_iff)
qed

theorem probe_failure_is_absence_witness:
  "\<not> probe_found fixture_env ''https://host/202002-divvy-tripdata.zip'' \<and>
   session_head fixture_env ''https://host/202002-divvy-tripdata.zip'' = HeadRequestException \<and>
   probe_candidate fixture_env ''https://host/'' 2020 2 = Inr [] \<and>
   get_available_files fixture_env ''https://host/'' = Inr fixture_catalog \<and>
   ''https://host/202002-divvy-tripdata.zip'' \<notin> set (map url fixture_catalog)"
proof -
  have h: "session_head fixture_env ''https://host/202002-divvy-tripdata.zip'' = HeadRequestException"
    by (simp add: fixture_env_def)
  have u: "candidate_url fixture_env ''https://host/'' 2020 2 = ''https://host/202002-divvy-tripdata.zip''"
    by (simp add: candidate_url_def fixture_env_def candidate_filename_def str_int_def
          format_02d_def zero_pad_def digit_char_def nat_digits_small nat_digits_step)
  from probe_failure_is_absence
    [of fixture_env "''https://host/202002-divvy-tripdata.zip''" "''https://host/''" 2020 2
        fixture_catalog] h u fixture_run
  show ?thesis by auto
qed

section \<open>The claims about the download executor\<close>

text \<open>
  Claim C1.  Skip rule: when the download loop reaches a record of the selected
  list and a local file exists at \<open>os_path_join d (filename file)\<close> whose length is the
  \<open>size\<close> of the record, the step leaves the whole state as it is (no request is
  added to the log, no file is changed) and adds one to the success count, and the
  loop goes on with the rest of the list.  A batch in which every record is already
  downloaded ends with all of them counted and the state unchanged.
\<close>

theorem skip_rule:
  assumes "download_loop env d pre n w = (Inr k, w1)"
    and "files w1 (os_path_join d (filename file)) = Some content"
    and "length content = size file"
  shows "download_loop env d (pre @ [file]) n w = (Inr (k + 1), w1) \<and>
         download_loop env d (pre @ file # rest) n w = download_loop env d rest (k + 1) w1 \<and>
         ((\<forall>f\<in>set fs. already_downloaded w (os_path_join d (filename f)) f) \<longrightarrow>
            download_all env d fs w = (Inr (length fs), w))"
proof -
  from assms(2,3) have "already_downloaded w1 (os_path_join d (filename file)) file"
    by (simp add: already_downloaded_def)
  then have "download_loop env d (file # xs) k w1 = download_loop env d xs (k + 1) w1" for xs
    by (simp add: Let_def)
  with assms(1) show ?thesis
    using download_loop_all_skipped [of fs w d env 0]
    by (simp add: download_loop_append download_all_def)
qed

lemma first_path:
  "os_path_join ''data'' ''201912-divvy-tripdata.zip'' = ''data/201912-divvy-tripdata.zip''"
  by (simp add: os_path_join_def)

theorem skip_rule_witness:
  "download_loop fixture_env ''data'' [] 0 local_with_first = (Inr 0, local_with_first) \<and>
   files local_with_first (os_path_join ''data'' (filename (hd selected_files))) = Some ''0123456789'' \<and>
   length ''0123456789'' = size (hd selected_files) \<and>
   download_loop fixture_env ''data'' [hd selected_files] 0 local_with_first
     = (Inr 1, local_with_first)"
  using skip_rule [of fixture_env "''data''" "[]" 0 local_with_first 0 local_with_first
                      "hd selected_files" "''0123456789''"]
  by (simp add: selected_files_def local_with_first_def first_path)

text \<open>
  The scenario of the specification, scaled down: three files of 10, 0 (not
  declared) and 5 bytes, the first of them already in the directory.  The loop
  counts three successes, skips the first file and sends two requests.
\<close>

lemma end_to_end:
  "fst (download_all fixture_env ''data'' selected_files local_with_first) = Inr 3 \<and>
   requests_log (snd (download_all fixture_env ''data'' selected_files local_with_first))
     = [''https://host/202001-divvy-tripdata.zip'', ''https://host/202003-divvy-tripdata.zip''] \<and>
   files (snd (download_all fixture_env ''data'' selected_files local_with_first))
     ''data/201912-divvy-tripdata.zip'' = Some ''0123456789'' \<and>
   files (snd (download_all fixture_env ''data'' selected_files local_with_first))
     ''data/202001-divvy-tripdata.zip'' = Some ''xyz'' \<and>
   files (snd (download_all fixture_env ''data'' selected_files local_with_first))
     ''data/202003-divvy-tripdata.zip'' = Some ''abcde''"
  by (simp add: download_all_def selected_files_def local_with_first_def fixture_env_def
        os_path_join_def already_downloaded_def download_file_def try_download_def
        os_path_dirname_def raise_for_status_def total_size_of_def py_int_def str_strip_def
        is_space_char_def is_ascii_digit_def int_of_digits_def digit_value_def Let_def)

text \<open>
  Claim C2.  The claim says that a failed transfer leaves no file at the output
  path, makes \<open>download_file\<close> return failure, and never ends the batch.  The code
  misses the case in which the clean-up itself fails: \<^verbatim>\<open>os.remove\<close> in the handler is
  not guarded, so its exception leaves \<open>download_file\<close> and the loop of \<^verbatim>\<open>main\<close>.  In
  the run below the first transfer is answered 404, the stale local file cannot be
  removed, and the batch ends with the exception: the stale file is still there and
  the second and third file were never requested.
\<close>

theorem cleanup_failure_aborts_batch:
  "fst (download_all readonly_env ''data'' selected_files local_with_stale) = Inl OSError \<and>
   requests_log (snd (download_all readonly_env ''data'' selected_files local_with_stale))
     = [''https://host/201912-divvy-tripdata.zip''] \<and>
   files (snd (download_all readonly_env ''data'' selected_files local_with_stale))
     ''data/201912-divvy-tripdata.zip'' = Some ''old''"
  by (simp add: download_all_def selected_files_def local_with_stale_def readonly_env_def
        fixture_env_def os_path_join_def already_downloaded_def download_file_def
        try_download_def os_path_dirname_def raise_for_status_def Let_def)

text \<open>
  Where \<^verbatim>\<open>os.remove\<close> does not raise, the failure is contained (lemmas
  \<open>download_file_contained\<close> and \<open>download_loop_contained\<close>): on the same host with a
  directory that can be changed, the stale file is removed and the batch goes on.
\<close>

lemma failure_contained_example:
  "fst (download_all fixture_env ''data'' selected_files local_with_stale) = Inr 2 \<and>
   requests_log (snd (download_all fixture_env ''data'' selected_files local_with_stale))
     = [''https://host/201912-divvy-tripdata.zip'', ''https://host/202001-divvy-tripdata.zip'',
        ''https://host/202003-divvy-tripdata.zip''] \<and>
   files (snd (download_all fixture_env ''data'' selected_files local_with_stale))
     ''data/201912-divvy-tripdata.zip'' = None"
  by (simp add: download_all_def selected_files_def local_with_stale_def fixture_env_def
        os_path_join_def already_downloaded_def download_file_def try_download_def
        os_path_dirname_def raise_for_status_def total_size_of_def py_int_def str_strip_def
        is_space_char_def is_ascii_digit_def int_of_digits_def digit_value_def Let_def)

end
